theory Spec2Isabelle
  imports Main "HOL-Library.FSet"
begin

section \<open>Battleship: the board model (battleship/core.py)\<close>

text \<open>
  The Python classes are embedded as records and the methods as functions that take the
  object and return the updated object together with the method's result. Python's
  integers are \<open>int\<close>, a position is a pair of integers, the set of hit cells is a
  finite set and the dictionary of shots is a map.

  The ships of a board are held by value: the list \<open>ships\<close> stands for a list of
  distinct objects. \<open>place_ship\<close> is the only method that appends to that list and it
  rejects a ship that overlaps a placed one, so a ship object (every ship type has a
  positive size) is never in the list twice.
\<close>

subsection \<open>Enumerations\<close>

datatype CellState = UNKNOWN | MISS | HIT

text \<open>
  \<open>ShipType\<close> is a Python \<open>Enum\<close> in which \<open>CRUISER\<close> and \<open>SUBMARINE\<close> both have the
  value 3. An \<open>Enum\<close> member that repeats an earlier value is an alias of the earlier
  member, so the enumeration has four members and \<open>ShipType.SUBMARINE\<close> is
  \<open>ShipType.CRUISER\<close>.
\<close>

datatype ShipType = CARRIER | BATTLESHIP | CRUISER | DESTROYER

definition SUBMARINE :: ShipType where
  "SUBMARINE = CRUISER"

fun ShipType_value :: "ShipType \<Rightarrow> int" where
  "ShipType_value CARRIER = 5"
| "ShipType_value BATTLESHIP = 4"
| "ShipType_value CRUISER = 3"
| "ShipType_value DESTROYER = 2"

datatype Orientation = HORIZONTAL | VERTICAL

type_synonym position = "int \<times> int"

subsection \<open>Ship\<close>

record Ship =
  ship_type :: ShipType
  size_ship :: int
  orientation :: Orientation
  start_position :: position
  hit_positions :: "position fset"

text \<open>\<open>Ship.__init__\<close>: the size is the value of the type, no cell is hit.\<close>

definition Ship_init :: "ShipType \<Rightarrow> Orientation \<Rightarrow> position \<Rightarrow> Ship" where
  "Ship_init t ori start =
     \<lparr>ship_type = t, size_ship = ShipType_value t, orientation = ori,
      start_position = start, hit_positions = {||}\<rparr>"

definition is_sunk :: "Ship \<Rightarrow> bool" where
  "is_sunk s = (int (fcard (hit_positions s)) = size_ship s)"

text \<open>\<open>range(self.size)\<close> is \<open>[0..size - 1]\<close>, empty when the size is not positive.\<close>

definition get_positions :: "Ship \<Rightarrow> position list" where
  "get_positions s =
     (case start_position s of (row, col) \<Rightarrow>
        map (\<lambda>i. if orientation s = HORIZONTAL then (row, col + i) else (row + i, col))
            [0..size_ship s - 1])"

definition register_hit :: "Ship \<Rightarrow> position \<Rightarrow> Ship \<times> bool" where
  "register_hit s p =
     (if p \<in> set (get_positions s) \<and> p |\<notin>| hit_positions s
      then (s\<lparr>hit_positions := finsert p (hit_positions s)\<rparr>, True)
      else (s, False))"

subsection \<open>Board\<close>

record Board =
  size_board :: int
  ships :: "Ship list"
  shots :: "position \<rightharpoonup> CellState"

definition Board_init :: "int \<Rightarrow> Board" where
  "Board_init n = \<lparr>size_board = n, ships = [], shots = Map.empty\<rparr>"

text \<open>
  \<open>place_ship\<close>: the first loop returns False at the first cell out of bounds, the
  second at the first placed ship whose cells meet the new ship's; only then is the ship
  appended.
\<close>

definition out_of_bounds :: "int \<Rightarrow> position \<Rightarrow> bool" where
  "out_of_bounds n p = (case p of (row, col) \<Rightarrow> row < 0 \<or> row \<ge> n \<or> col < 0 \<or> col \<ge> n)"

definition overlaps :: "Ship \<Rightarrow> Ship \<Rightarrow> bool" where
  "overlaps existing_ship ship =
     (set (get_positions existing_ship) \<inter> set (get_positions ship) \<noteq> {})"

definition place_ship :: "Board \<Rightarrow> Ship \<Rightarrow> Board \<times> bool" where
  "place_ship b ship =
     (if list_ex (out_of_bounds (size_board b)) (get_positions ship) then (b, False)
      else if list_ex (\<lambda>existing_ship. overlaps existing_ship ship) (ships b) then (b, False)
      else (b\<lparr>ships := ships b @ [ship]\<rparr>, True))"

text \<open>
  The loop of \<open>receive_shot\<close> over the ships: at the first ship that occupies the
  position the hit is registered on it and the loop is left; \<open>None\<close> when no ship
  occupies the position.
\<close>

fun receive_shot_scan :: "position \<Rightarrow> Ship list \<Rightarrow> Ship list option" where
  "receive_shot_scan p [] = None"
| "receive_shot_scan p (ship # rest) =
     (if p \<in> set (get_positions ship) then Some (fst (register_hit ship p) # rest)
      else map_option ((#) ship) (receive_shot_scan p rest))"

definition receive_shot :: "Board \<Rightarrow> position \<Rightarrow> Board \<times> CellState" where
  "receive_shot b p =
     (case shots b p of
        Some recorded \<Rightarrow> (b, recorded)
      | None \<Rightarrow>
          (case receive_shot_scan p (ships b) of
             Some ships' \<Rightarrow> (b\<lparr>ships := ships', shots := (shots b)(p \<mapsto> HIT)\<rparr>, HIT)
           | None \<Rightarrow> (b\<lparr>shots := (shots b)(p \<mapsto> MISS)\<rparr>, MISS)))"

definition are_all_ships_sunk :: "Board \<Rightarrow> bool" where
  "are_all_ships_sunk b = list_all is_sunk (ships b)"

definition get_ship_at_position :: "Board \<Rightarrow> position \<Rightarrow> Ship option" where
  "get_ship_at_position b p = find (\<lambda>ship. p \<in> set (get_positions ship)) (ships b)"

subsection \<open>Random placement\<close>

text \<open>
  Randomness. The functions of Python's \<open>random\<close> module are modelled by the numbers
  they draw: \<open>random.choice(seq)\<close> is \<open>seq[randbelow(len(seq))]\<close> and
  \<open>random.randint(a, b)\<close> is \<open>a + randbelow(b - a + 1)\<close>, where the draw is
  \<open>r mod n\<close> for a natural number \<open>r\<close> supplied from outside. Every value Python can
  draw is the draw of some \<open>r\<close>, and a theorem for all \<open>r\<close> holds for every run.
  A method that draws several numbers reads them from a tape \<open>rs :: nat \<Rightarrow> nat\<close> at a
  position \<open>k\<close> and returns the position after its last draw.
\<close>

datatype py_error = ValueError

text \<open>\<open>random_choice\<close> is called on non-empty lists only (both call sites see to it).\<close>

definition random_choice :: "'a list \<Rightarrow> nat \<Rightarrow> 'a" where
  "random_choice xs r = xs ! (r mod length xs)"

text \<open>\<open>random.randint(a, b)\<close> raises \<open>ValueError\<close> on an empty range.\<close>

definition randint :: "int \<Rightarrow> int \<Rightarrow> nat \<Rightarrow> py_error + int" where
  "randint a b r = (if b < a then Inl ValueError else Inr (a + int (r mod nat (b - a + 1))))"

text \<open>
  One pass of the inner loop of \<open>random_placement\<close> up to the construction of the ship:
  three draws, for the orientation, the row and the column.
\<close>

definition random_ship :: "ShipType \<Rightarrow> int \<Rightarrow> (nat \<Rightarrow> nat) \<Rightarrow> nat \<Rightarrow> py_error + Ship" where
  "random_ship t n rs k =
     (let ori = random_choice [HORIZONTAL, VERTICAL] (rs k) in
      case (if ori = HORIZONTAL then randint 0 (n - 1) (rs (k + 1))
            else randint 0 (n - ShipType_value t) (rs (k + 1))) of
        Inl e \<Rightarrow> Inl e
      | Inr row \<Rightarrow>
          (case (if ori = HORIZONTAL then randint 0 (n - ShipType_value t) (rs (k + 2))
                 else randint 0 (n - 1) (rs (k + 2))) of
             Inl e \<Rightarrow> Inl e
           | Inr col \<Rightarrow> Inr (Ship_init t ori (row, col))))"

text \<open>
  The inner loop: up to \<open>n\<close> attempts to place a ship of type \<open>t\<close>; the flag returned
  is False when the loop ran to its \<open>else\<close> branch.
\<close>

fun try_place :: "nat \<Rightarrow> ShipType \<Rightarrow> Board \<Rightarrow> (nat \<Rightarrow> nat) \<Rightarrow> nat
    \<Rightarrow> py_error + (Board \<times> bool \<times> nat)" where
  "try_place 0 t b rs k = Inr (b, False, k)"
| "try_place (Suc n) t b rs k =
     (case random_ship t (size_board b) rs k of
        Inl e \<Rightarrow> Inl e
      | Inr ship \<Rightarrow>
          (if snd (place_ship b ship) then Inr (fst (place_ship b ship), True, k + 3)
           else try_place n t (fst (place_ship b ship)) rs (k + 3)))"

fun place_fleet :: "ShipType list \<Rightarrow> Board \<Rightarrow> (nat \<Rightarrow> nat) \<Rightarrow> nat
    \<Rightarrow> py_error + (Board \<times> bool \<times> nat)" where
  "place_fleet [] b rs k = Inr (b, True, k)"
| "place_fleet (t # ts) b rs k =
     (case try_place 100 t b rs k of
        Inl e \<Rightarrow> Inl e
      | Inr (b', False, k') \<Rightarrow> Inr (b', False, k')
      | Inr (b', True, k') \<Rightarrow> place_fleet ts b' rs k')"

definition ship_types :: "ShipType list" where
  "ship_types = [CARRIER, BATTLESHIP, CRUISER, SUBMARINE, DESTROYER]"

definition random_placement :: "Board \<Rightarrow> (nat \<Rightarrow> nat) \<Rightarrow> nat \<Rightarrow> py_error + (Board \<times> bool \<times> nat)" where
  "random_placement b rs k = place_fleet ship_types (b\<lparr>ships := []\<rparr>) rs k"

section \<open>The strategy (battleship/strategy.py)\<close>

text \<open>
  \<open>RandomStrategy\<close> is the only strategy class; \<open>Strategy\<close> holds its state. The fields
  \<open>shots\<close> and \<open>board_size\<close> exist in two classes each and are written with the class
  name: \<open>Board.shots\<close>, \<open>Strategy.shots\<close>, \<open>Strategy.board_size\<close>, \<open>Game.board_size\<close>.
\<close>

record Strategy =
  board_size :: int
  shots :: "position list"
  hits :: "position list"
  misses :: "position list"

definition Strategy_init :: "int \<Rightarrow> Strategy" where
  "Strategy_init n =
     \<lparr>Strategy.board_size = n, Strategy.shots = [], hits = [], misses = []\<rparr>"

definition register_result :: "Strategy \<Rightarrow> position \<Rightarrow> CellState \<Rightarrow> Strategy" where
  "register_result st p result =
     (let st1 = st\<lparr>Strategy.shots := Strategy.shots st @ [p]\<rparr> in
      if result = HIT then st1\<lparr>hits := hits st1 @ [p]\<rparr>
      else if result = MISS then st1\<lparr>misses := misses st1 @ [p]\<rparr>
      else st1)"

definition get_available_positions :: "Strategy \<Rightarrow> position list" where
  "get_available_positions st =
     [(row, col). row \<leftarrow> [0..Strategy.board_size st - 1],
                  col \<leftarrow> [0..Strategy.board_size st - 1],
                  (row, col) \<notin> set (Strategy.shots st)]"

definition reset :: "Strategy \<Rightarrow> Strategy" where
  "reset st = st\<lparr>Strategy.shots := [], hits := [], misses := []\<rparr>"

text \<open>\<open>RandomStrategy.get_next_shot\<close>; \<open>r\<close> is the number \<open>random.choice\<close> draws.\<close>

definition get_next_shot :: "Strategy \<Rightarrow> nat \<Rightarrow> position" where
  "get_next_shot st r =
     (let available = get_available_positions st in
      if available = [] then (-1, -1) else random_choice available r)"

section \<open>The game (battleship/game.py)\<close>

record Game =
  player_board :: Board
  ai_board :: Board
  board_size :: int
  turn_count :: int
  game_over :: bool
  winner :: "string option"
  ai_strategy :: Strategy

definition Game_init :: "int \<Rightarrow> Strategy option \<Rightarrow> Game" where
  "Game_init n strategy =
     \<lparr>player_board = Board_init n, ai_board = Board_init n, Game.board_size = n,
      turn_count = 0, game_over = False, winner = None,
      ai_strategy = (case strategy of None \<Rightarrow> Strategy_init n | Some st \<Rightarrow> st)\<rparr>"

text \<open>
  \<open>setup_game\<close> ignores the flags of the two placements; a \<open>ValueError\<close> of a placement
  leaves the method.
\<close>

definition setup_game :: "Game \<Rightarrow> (nat \<Rightarrow> nat) \<Rightarrow> nat \<Rightarrow> py_error + (Game \<times> nat)" where
  "setup_game g rs k =
     (case random_placement (player_board g) rs k of
        Inl e \<Rightarrow> Inl e
      | Inr (pb, _, k1) \<Rightarrow>
          (case random_placement (ai_board g) rs k1 of
             Inl e \<Rightarrow> Inl e
           | Inr (ab, _, k2) \<Rightarrow>
               Inr (g\<lparr>player_board := pb, ai_board := ab, ai_strategy := reset (ai_strategy g)\<rparr>,
                    k2)))"

definition player_shoot :: "Game \<Rightarrow> position \<Rightarrow> Game \<times> CellState" where
  "player_shoot g p =
     (if game_over g then (g, UNKNOWN)
      else case receive_shot (ai_board g) p of
        (ab, result) \<Rightarrow>
          (let g1 = g\<lparr>ai_board := ab\<rparr> in
           (if are_all_ships_sunk ab then g1\<lparr>game_over := True, winner := Some ''Player''\<rparr>
            else g1,
            result)))"

definition ai_shoot :: "Game \<Rightarrow> nat \<Rightarrow> Game \<times> position \<times> CellState" where
  "ai_shoot g r =
     (if game_over g then (g, (-1, -1), UNKNOWN)
      else let p = get_next_shot (ai_strategy g) r in
        if p = (-1, -1) then (g, (-1, -1), UNKNOWN)
        else case receive_shot (player_board g) p of
          (pb, result) \<Rightarrow>
            (let g1 = g\<lparr>player_board := pb,
                         ai_strategy := register_result (ai_strategy g) p result\<rparr> in
             (if are_all_ships_sunk pb then g1\<lparr>game_over := True, winner := Some ''AI''\<rparr>
              else g1,
              p, result)))"

text \<open>The dictionary \<open>play_turn\<close> returns: string keys, values of several Python types.\<close>

datatype py_value =
  PyTuple position | PyCellState CellState | PyBool bool | PyNone | PyStr string | PyInt int

definition winner_value :: "string option \<Rightarrow> py_value" where
  "winner_value w = (case w of None \<Rightarrow> PyNone | Some name \<Rightarrow> PyStr name)"

definition play_turn :: "Game \<Rightarrow> position \<Rightarrow> nat \<Rightarrow> Game \<times> (string \<rightharpoonup> py_value)" where
  "play_turn g player_shot_position r =
     (if game_over g
      then (g, [''game_over'' \<mapsto> PyBool True, ''winner'' \<mapsto> winner_value (winner g)])
      else case player_shoot (g\<lparr>turn_count := turn_count g + 1\<rparr>) player_shot_position of
        (g1, player_result) \<Rightarrow>
          if game_over g1
          then (g1, [''player_shot'' \<mapsto> PyTuple player_shot_position,
                     ''player_result'' \<mapsto> PyCellState player_result,
                     ''game_over'' \<mapsto> PyBool True,
                     ''winner'' \<mapsto> winner_value (winner g1)])
          else case ai_shoot g1 r of
            (g2, ai_position, ai_result) \<Rightarrow>
              (g2, [''player_shot'' \<mapsto> PyTuple player_shot_position,
                    ''player_result'' \<mapsto> PyCellState player_result,
                    ''ai_shot'' \<mapsto> PyTuple ai_position,
                    ''ai_result'' \<mapsto> PyCellState ai_result,
                    ''game_over'' \<mapsto> PyBool (game_over g2),
                    ''winner'' \<mapsto> winner_value (winner g2),
                    ''turn_count'' \<mapsto> PyInt (turn_count g2)]))"

section \<open>Boards built by the methods, and example states\<close>

text \<open>
  The boards that the methods of \<open>Board\<close> build: a new board, and a board after
  \<open>place_ship\<close>, \<open>receive_shot\<close> or a \<open>random_placement\<close> that returned. The boards of
  a \<open>Game\<close> are of this kind.
\<close>

inductive reachable_board :: "Board \<Rightarrow> bool" where
  new_board: "reachable_board (Board_init n)"
| after_place_ship: "reachable_board b \<Longrightarrow> reachable_board (fst (place_ship b ship))"
| after_receive_shot: "reachable_board b \<Longrightarrow> reachable_board (fst (receive_shot b p))"
| after_random_placement:
    "reachable_board b \<Longrightarrow> random_placement b rs k = Inr (b', ok, k') \<Longrightarrow> reachable_board b'"

text \<open>The invariant \<open>place_ship\<close> maintains: every cell of every placed ship is on the board.\<close>

definition placed_in_bounds :: "Board \<Rightarrow> bool" where
  "placed_in_bounds b =
     list_all (\<lambda>ship. \<not> list_ex (out_of_bounds (size_board b)) (get_positions ship)) (ships b)"

subsection \<open>Example states\<close>

text \<open>A board of size 10 with one destroyer on the cells \<open>(0, 0)\<close> and \<open>(0, 1)\<close>.\<close>

definition destroyer_board :: Board where
  "destroyer_board = fst (place_ship (Board_init 10) (Ship_init DESTROYER HORIZONTAL (0, 0)))"

text \<open>
  A strategy for a board of size 2 after one registered shot, and a strategy for a board
  of size 1 whose only cell has been shot.
\<close>

definition strategy_after_one :: Strategy where
  "strategy_after_one = register_result (Strategy_init 2) (0, 0) MISS"

definition strategy_exhausted :: Strategy where
  "strategy_exhausted = register_result (Strategy_init 1) (0, 0) HIT"

text \<open>The second strategy after \<open>register_result\<close> was called with the sentinel position.\<close>

definition strategy_sentinel_registered :: Strategy where
  "strategy_sentinel_registered = register_result strategy_exhausted (-1, -1) MISS"

text \<open>
  A game set up with the tape \<open>0, 1, 2, ...\<close>; the same game after the player has shot
  at every cell of the AI's fleet but the last cell of its destroyer, \<open>(2, 9)\<close>; and a
  new game whose strategy has no cell left.
\<close>

definition example_game :: Game where
  "example_game =
     (case setup_game (Game_init 10 None) (\<lambda>k. k) 0 of
        Inr (g, k) \<Rightarrow> g
      | Inl e \<Rightarrow> Game_init 10 None)"

definition last_turn_game :: Game where
  "last_turn_game =
     foldl (\<lambda>g p. fst (player_shoot g p)) example_game
       [(4, 7), (5, 7), (6, 7), (7, 7), (8, 7), (9, 6), (9, 7), (9, 8), (9, 9),
        (6, 3), (7, 3), (8, 3), (5, 2), (5, 3), (5, 4), (1, 9)]"

definition exhausted_game :: Game where
  "exhausted_game = Game_init 1 (Some strategy_exhausted)"

section \<open>Properties of the board\<close>

lemma register_hit_occupied:
  "p \<in> set (get_positions s) \<Longrightarrow>
   fst (register_hit s p) = s\<lparr>hit_positions := finsert p (hit_positions s)\<rparr>"
  by (simp add: register_hit_def finsert_absorb)

lemma receive_shot_scan_None:
  "(receive_shot_scan p ss = None) = (\<forall>s \<in> set ss. p \<notin> set (get_positions s))"
  by (induction ss) auto

lemma receive_shot_scan_Some:
  "receive_shot_scan p ss = Some ss' \<Longrightarrow>
   \<exists>before s after. ss = before @ s # after
     \<and> (\<forall>t \<in> set before. p \<notin> set (get_positions t))
     \<and> p \<in> set (get_positions s)
     \<and> find (\<lambda>ship. p \<in> set (get_positions ship)) ss = Some s
     \<and> ss' = before @ s\<lparr>hit_positions := finsert p (hit_positions s)\<rparr> # after"
proof (induction ss arbitrary: ss')
  case Nil
  then show ?case by simp
next
  case (Cons a ss)
  show ?case
  proof (cases "p \<in> set (get_positions a)")
    case True
    with Cons.prems have "ss' = a\<lparr>hit_positions := finsert p (hit_positions a)\<rparr> # ss"
      by (simp add: register_hit_occupied)
    with True have "a # ss = [] @ a # ss \<and> (\<forall>t \<in> set []. p \<notin> set (get_positions t))
        \<and> p \<in> set (get_positions a)
        \<and> find (\<lambda>ship. p \<in> set (get_positions ship)) (a # ss) = Some a
        \<and> ss' = [] @ a\<lparr>hit_positions := finsert p (hit_positions a)\<rparr> # ss"
      by simp
    then show ?thesis by blast
  next
    case False
    with Cons.prems obtain tl' where tl': "receive_shot_scan p ss = Some tl'" and ss': "ss' = a # tl'"
      by auto
    from Cons.IH [OF tl'] obtain before s after where
      st: "ss = before @ s # after" "\<forall>t \<in> set before. p \<notin> set (get_positions t)"
        "p \<in> set (get_positions s)"
        "find (\<lambda>ship. p \<in> set (get_positions ship)) ss = Some s"
        "tl' = before @ s\<lparr>hit_positions := finsert p (hit_positions s)\<rparr> # after"
      by blast
    with False ss' have "a # ss = (a # before) @ s # after
        \<and> (\<forall>t \<in> set (a # before). p \<notin> set (get_positions t))
        \<and> p \<in> set (get_positions s)
        \<and> find (\<lambda>ship. p \<in> set (get_positions ship)) (a # ss) = Some s
        \<and> ss' = (a # before) @ s\<lparr>hit_positions := finsert p (hit_positions s)\<rparr> # after"
      by simp
    then show ?thesis by blast
  qed
qed

lemma receive_shot_recorded:
  "Board.shots (fst (receive_shot b p)) p = Some (snd (receive_shot b p))"
  by (simp add: receive_shot_def split: option.splits)

lemma receive_shot_replay:
  "Board.shots b p = Some st \<Longrightarrow> receive_shot b p = (b, st)"
  by (simp add: receive_shot_def)

text \<open>
  C1. A second \<open>receive_shot\<close> at the same position returns the state the first call
  returned and leaves the board as the first call left it: the ships (and with them
  every set of hit cells) and the shots map are those after the first call.
\<close>

theorem receive_shot_idempotent:
  "snd (receive_shot (fst (receive_shot b p)) p) = snd (receive_shot b p)
   \<and> fst (receive_shot (fst (receive_shot b p)) p) = fst (receive_shot b p)
   \<and> map hit_positions (ships (fst (receive_shot (fst (receive_shot b p)) p)))
       = map hit_positions (ships (fst (receive_shot b p)))
   \<and> Board.shots (fst (receive_shot (fst (receive_shot b p)) p)) = Board.shots (fst (receive_shot b p))"
proof -
  have "receive_shot (fst (receive_shot b p)) p = (fst (receive_shot b p), snd (receive_shot b p))"
    by (rule receive_shot_replay) (rule receive_shot_recorded)
  then show ?thesis by simp
qed

lemma destroyer_positions:
  "get_positions (Ship_init DESTROYER HORIZONTAL (0, 0)) = [(0, 0), (0, 1)]"
  by code_simp

lemma destroyer_board_eq:
  "destroyer_board = \<lparr>size_board = 10, ships = [Ship_init DESTROYER HORIZONTAL (0, 0)], Board.shots = Map.empty\<rparr>"
  by (simp add: destroyer_board_def place_ship_def Board_init_def destroyer_positions out_of_bounds_def)

text \<open>
  C2. A shot at a position that is not in the shots record: when some placed ship
  occupies the position, the result is \<open>HIT\<close>, \<open>HIT\<close> is recorded for the position and
  the hit is registered on the first ship in the list that occupies it (the ship
  \<open>get_ship_at_position\<close> finds), whose hit cells gain the position, all else unchanged;
  when no placed ship occupies it, \<open>MISS\<close> is recorded and returned and nothing else
  changes.
\<close>

theorem receive_shot_new_position:
  assumes "Board.shots b p = None"
  shows "if \<exists>s \<in> set (ships b). p \<in> set (get_positions s)
         then snd (receive_shot b p) = HIT
            \<and> (\<exists>before s after.
                  ships b = before @ s # after
                \<and> (\<forall>t \<in> set before. p \<notin> set (get_positions t))
                \<and> p \<in> set (get_positions s)
                \<and> get_ship_at_position b p = Some s
                \<and> fst (receive_shot b p) =
                    b\<lparr>ships := before @ fst (register_hit s p) # after,
                      Board.shots := (Board.shots b)(p \<mapsto> HIT)\<rparr>
                \<and> hit_positions (fst (register_hit s p)) = finsert p (hit_positions s))
         else receive_shot b p = (b\<lparr>Board.shots := (Board.shots b)(p \<mapsto> MISS)\<rparr>, MISS)"
proof (cases "receive_shot_scan p (ships b)")
  case None
  then have "\<not> (\<exists>s \<in> set (ships b). p \<in> set (get_positions s))"
    by (simp add: receive_shot_scan_None)
  with None assms show ?thesis
    by (simp add: receive_shot_def)
next
  case (Some ss')
  then have occ: "\<exists>s \<in> set (ships b). p \<in> set (get_positions s)"
    using receive_shot_scan_None [of p "ships b"] by auto
  from receive_shot_scan_Some [OF Some] obtain before s after where
    st: "ships b = before @ s # after" "\<forall>t \<in> set before. p \<notin> set (get_positions t)"
      "p \<in> set (get_positions s)"
      "find (\<lambda>ship. p \<in> set (get_positions ship)) (ships b) = Some s"
      "ss' = before @ s\<lparr>hit_positions := finsert p (hit_positions s)\<rparr> # after"
    by blast
  from st(3) have rh: "fst (register_hit s p) = s\<lparr>hit_positions := finsert p (hit_positions s)\<rparr>"
    by (rule register_hit_occupied)
  have res: "receive_shot b p = (b\<lparr>ships := ss', Board.shots := (Board.shots b)(p \<mapsto> HIT)\<rparr>, HIT)"
    using assms Some by (simp add: receive_shot_def)
  have "ships b = before @ s # after
      \<and> (\<forall>t \<in> set before. p \<notin> set (get_positions t))
      \<and> p \<in> set (get_positions s)
      \<and> get_ship_at_position b p = Some s
      \<and> fst (receive_shot b p) =
          b\<lparr>ships := before @ fst (register_hit s p) # after,
            Board.shots := (Board.shots b)(p \<mapsto> HIT)\<rparr>
      \<and> hit_positions (fst (register_hit s p)) = finsert p (hit_positions s)"
    using st rh res by (simp add: get_ship_at_position_def)
  then have "\<exists>before s after. ships b = before @ s # after
      \<and> (\<forall>t \<in> set before. p \<notin> set (get_positions t))
      \<and> p \<in> set (get_positions s)
      \<and> get_ship_at_position b p = Some s
      \<and> fst (receive_shot b p) =
          b\<lparr>ships := before @ fst (register_hit s p) # after,
            Board.shots := (Board.shots b)(p \<mapsto> HIT)\<rparr>
      \<and> hit_positions (fst (register_hit s p)) = finsert p (hit_positions s)"
    by blast
  with occ res show ?thesis by simp
qed

theorem receive_shot_new_position_witness:
  "Board.shots destroyer_board (0, 1) = None
   \<and> receive_shot destroyer_board (0, 1) =
       (destroyer_board\<lparr>ships := [(Ship_init DESTROYER HORIZONTAL (0, 0))\<lparr>hit_positions := {|(0, 1)|}\<rparr>],
                         Board.shots := [(0, 1) \<mapsto> HIT]\<rparr>, HIT)
   \<and> receive_shot destroyer_board (5, 5) =
       (destroyer_board\<lparr>Board.shots := [(5, 5) \<mapsto> MISS]\<rparr>, MISS)"
proof -
  have h: "Board.shots destroyer_board p = None" for p
    by (simp add: destroyer_board_eq)
  have occ: "\<exists>s \<in> set (ships destroyer_board). (0, 1) \<in> set (get_positions s)"
    by (simp add: destroyer_board_eq destroyer_positions)
  have free: "\<not> (\<exists>s \<in> set (ships destroyer_board). (5, 5) \<in> set (get_positions s))"
    by (simp add: destroyer_board_eq destroyer_positions)
  from receive_shot_new_position [OF h, of "(5, 5)"] free
  have miss: "receive_shot destroyer_board (5, 5) =
       (destroyer_board\<lparr>Board.shots := [(5, 5) \<mapsto> MISS]\<rparr>, MISS)"
    by (simp add: destroyer_board_eq)
  from receive_shot_new_position [OF h, of "(0, 1)"] occ
  obtain before s after where
    st: "ships destroyer_board = before @ s # after"
      "fst (receive_shot destroyer_board (0, 1)) =
          destroyer_board\<lparr>ships := before @ fst (register_hit s (0, 1)) # after,
            Board.shots := (Board.shots destroyer_board)((0, 1) \<mapsto> HIT)\<rparr>"
      "hit_positions (fst (register_hit s (0, 1))) = finsert (0, 1) (hit_positions s)"
      "snd (receive_shot destroyer_board (0, 1)) = HIT"
    by auto
  from st(1) have "before = [] \<and> s = Ship_init DESTROYER HORIZONTAL (0, 0) \<and> after = []"
    by (simp add: destroyer_board_eq append_eq_Cons_conv Cons_eq_append_conv)
  with st have "receive_shot destroyer_board (0, 1) =
       (destroyer_board\<lparr>ships := [(Ship_init DESTROYER HORIZONTAL (0, 0))\<lparr>hit_positions := {|(0, 1)|}\<rparr>],
                         Board.shots := [(0, 1) \<mapsto> HIT]\<rparr>, HIT)"
    by (simp add: prod_eq_iff destroyer_board_eq register_hit_def destroyer_positions) (simp add: Ship_init_def)
  with miss h show ?thesis by simp
qed

subsection \<open>Placement\<close>

lemma place_ship_cases:
  "place_ship b ship = (b, False) \<or> place_ship b ship = (b\<lparr>ships := ships b @ [ship]\<rparr>, True)"
  by (simp add: place_ship_def)

lemma list_ex_out_of_bounds:
  "list_ex (out_of_bounds n) ps =
     (\<not> (\<forall>(row, col) \<in> set ps. 0 \<le> row \<and> row < n \<and> 0 \<le> col \<and> col < n))"
  by (induction ps) (auto simp: out_of_bounds_def)

text \<open>
  C5. \<open>place_ship\<close> returns True exactly when every cell of the ship is within
  \<open>[0, size)\<close> on both axes and no placed ship shares a cell with it; then the ship is
  appended to the ship list and nothing else changes. When it returns False the board
  is the board it was given.
\<close>

theorem place_ship_validates:
  "snd (place_ship b ship) =
     ((\<forall>(row, col) \<in> set (get_positions ship).
          0 \<le> row \<and> row < size_board b \<and> 0 \<le> col \<and> col < size_board b)
      \<and> (\<forall>existing_ship \<in> set (ships b).
          set (get_positions existing_ship) \<inter> set (get_positions ship) = {}))
   \<and> fst (place_ship b ship) =
       (if snd (place_ship b ship) then b\<lparr>ships := ships b @ [ship]\<rparr> else b)
   \<and> Board.shots (fst (place_ship b ship)) = Board.shots b"
proof -
  have "snd (place_ship b ship) =
     (\<not> list_ex (out_of_bounds (size_board b)) (get_positions ship)
      \<and> \<not> list_ex (\<lambda>existing_ship. overlaps existing_ship ship) (ships b))"
    by (simp add: place_ship_def)
  moreover have "list_ex (\<lambda>existing_ship. overlaps existing_ship ship) (ships b) =
     (\<not> (\<forall>existing_ship \<in> set (ships b).
          set (get_positions existing_ship) \<inter> set (get_positions ship) = {}))"
    by (simp add: list_ex_iff overlaps_def)
  moreover have "fst (place_ship b ship) =
       (if snd (place_ship b ship) then b\<lparr>ships := ships b @ [ship]\<rparr> else b)"
    by (simp add: place_ship_def)
  moreover have "Board.shots (fst (place_ship b ship)) = Board.shots b"
    by (simp add: place_ship_def)
  ultimately show ?thesis
    by (simp add: list_ex_out_of_bounds)
qed

lemma cruiser_positions:
  "get_positions (Ship_init CRUISER VERTICAL (0, 1)) = [(0, 1), (1, 1), (2, 1)]"
  by code_simp

lemma cruiser_positions_low:
  "get_positions (Ship_init CRUISER VERTICAL (8, 5)) = [(8, 5), (9, 5), (10, 5)]"
  by code_simp

lemma cruiser_positions_free:
  "get_positions (Ship_init CRUISER VERTICAL (5, 5)) = [(5, 5), (6, 5), (7, 5)]"
  by code_simp

theorem place_ship_validates_witness:
  "place_ship destroyer_board (Ship_init CRUISER VERTICAL (0, 1)) = (destroyer_board, False)
   \<and> place_ship destroyer_board (Ship_init CRUISER VERTICAL (8, 5)) = (destroyer_board, False)
   \<and> place_ship destroyer_board (Ship_init CRUISER VERTICAL (5, 5)) =
       (destroyer_board\<lparr>ships := [Ship_init DESTROYER HORIZONTAL (0, 0),
                                   Ship_init CRUISER VERTICAL (5, 5)]\<rparr>, True)"
proof -
  have "place_ship destroyer_board (Ship_init CRUISER VERTICAL (0, 1)) = (destroyer_board, False)"
    using place_ship_validates [of destroyer_board "Ship_init CRUISER VERTICAL (0, 1)"]
    by (simp add: prod_eq_iff destroyer_board_eq destroyer_positions cruiser_positions)
  moreover
  have "place_ship destroyer_board (Ship_init CRUISER VERTICAL (8, 5)) = (destroyer_board, False)"
    using place_ship_validates [of destroyer_board "Ship_init CRUISER VERTICAL (8, 5)"]
    by (simp add: prod_eq_iff destroyer_board_eq destroyer_positions cruiser_positions_low)
  moreover
  have "place_ship destroyer_board (Ship_init CRUISER VERTICAL (5, 5)) =
       (destroyer_board\<lparr>ships := [Ship_init DESTROYER HORIZONTAL (0, 0),
                                   Ship_init CRUISER VERTICAL (5, 5)]\<rparr>, True)"
    using place_ship_validates [of destroyer_board "Ship_init CRUISER VERTICAL (5, 5)"]
    by (simp add: prod_eq_iff destroyer_board_eq destroyer_positions cruiser_positions_free)
  ultimately show ?thesis by simp
qed

subsection \<open>Placed ships stay on the board\<close>

lemma placed_in_bounds_new: "placed_in_bounds (Board_init n)"
  by (simp add: placed_in_bounds_def Board_init_def)

lemma placed_in_bounds_place_ship:
  "placed_in_bounds b \<Longrightarrow> placed_in_bounds (fst (place_ship b ship))"
  by (simp add: placed_in_bounds_def place_ship_def)

lemma receive_shot_scan_positions:
  "receive_shot_scan p ss = Some ss' \<Longrightarrow> map get_positions ss' = map get_positions ss"
proof (induction ss arbitrary: ss')
  case Nil
  then show ?case by simp
next
  case (Cons a ss)
  then show ?case
    by (auto simp: register_hit_def get_positions_def split: if_splits)
qed

lemma receive_shot_positions:
  "map get_positions (ships (fst (receive_shot b p))) = map get_positions (ships b)"
  by (simp add: receive_shot_def receive_shot_scan_positions split: option.splits)

lemma receive_shot_size: "size_board (fst (receive_shot b p)) = size_board b"
  by (simp add: receive_shot_def split: option.splits)

lemma placed_in_bounds_positions:
  "placed_in_bounds b =
     list_all (\<lambda>ps. \<not> list_ex (out_of_bounds (size_board b)) ps) (map get_positions (ships b))"
  by (simp add: placed_in_bounds_def list_all_iff)

lemma placed_in_bounds_receive_shot:
  "placed_in_bounds b \<Longrightarrow> placed_in_bounds (fst (receive_shot b p))"
  by (simp add: placed_in_bounds_positions receive_shot_positions receive_shot_size)

lemma random_ship_made:
  "random_ship t n rs k = Inr ship \<Longrightarrow> \<exists>ori start. ship = Ship_init t ori start"
  by (auto simp: random_ship_def Let_def split: sum.splits if_splits)

lemma try_place_result:
  "try_place n t b rs k = Inr (b', ok, k') \<Longrightarrow>
   (if ok then \<exists>ori start. place_ship b (Ship_init t ori start) =
                  (b\<lparr>ships := ships b @ [Ship_init t ori start]\<rparr>, True)
                \<and> b' = b\<lparr>ships := ships b @ [Ship_init t ori start]\<rparr>
    else b' = b)"
proof (induction n arbitrary: k)
  case 0
  then show ?case by auto
next
  case (Suc n)
  from Suc.prems obtain ship where
    ship: "random_ship t (size_board b) rs k = Inr ship"
    by (auto split: sum.splits)
  then obtain ori start where made: "ship = Ship_init t ori start"
    using random_ship_made by blast
  from place_ship_cases [of b ship] show ?case
  proof
    assume fail: "place_ship b ship = (b, False)"
    with ship Suc.prems have "try_place n t b rs (k + 3) = Inr (b', ok, k')" by simp
    then show ?thesis by (rule Suc.IH)
  next
    assume placed: "place_ship b ship = (b\<lparr>ships := ships b @ [ship]\<rparr>, True)"
    with ship Suc.prems have "ok" and "b' = b\<lparr>ships := ships b @ [ship]\<rparr>"
      by simp_all
    with placed made show ?thesis by (cases start) auto
  qed
qed

lemma place_fleet_result:
  "place_fleet ts b rs k = Inr (b', ok, k') \<Longrightarrow>
   \<exists>placed. b' = b\<lparr>ships := ships b @ placed\<rparr>
     \<and> list_all2 (\<lambda>s t. \<exists>ori start. s = Ship_init t ori start) placed (take (length placed) ts)
     \<and> (ok \<longrightarrow> length placed = length ts)
     \<and> (placed_in_bounds b \<longrightarrow> placed_in_bounds b')"
proof (induction ts arbitrary: b k)
  case Nil
  then have "b' = b\<lparr>ships := ships b @ []\<rparr>" by simp
  then show ?case by (intro exI [of _ "[]"]) simp
next
  case (Cons t ts)
  from Cons.prems obtain b1 ok1 k1 where
    tp: "try_place 100 t b rs k = Inr (b1, ok1, k1)"
    by (auto split: sum.splits)
  show ?case
  proof (cases ok1)
    case False
    with tp Cons.prems have "b' = b1" by simp
    moreover from try_place_result [OF tp] False have "b1 = b" by simp
    ultimately have "b' = b\<lparr>ships := ships b @ []\<rparr>" by simp
    moreover from tp False Cons.prems have "\<not> ok" by simp
    ultimately show ?thesis by (intro exI [of _ "[]"]) simp
  next
    case True
    with try_place_result [OF tp] obtain ori start where
      ps: "place_ship b (Ship_init t ori start) = (b1, True)"
      and b1: "b1 = b\<lparr>ships := ships b @ [Ship_init t ori start]\<rparr>"
      by auto
    from ps placed_in_bounds_place_ship [of b "Ship_init t ori start"]
    have inv1: "placed_in_bounds b \<Longrightarrow> placed_in_bounds b1" by simp
    from tp True Cons.prems have "place_fleet ts b1 rs k1 = Inr (b', ok, k')" by simp
    from Cons.IH [OF this] obtain placed where
      pl: "b' = b1\<lparr>ships := ships b1 @ placed\<rparr>"
        "list_all2 (\<lambda>s t. \<exists>ori start. s = Ship_init t ori start) placed (take (length placed) ts)"
        "ok \<longrightarrow> length placed = length ts"
        "placed_in_bounds b1 \<longrightarrow> placed_in_bounds b'"
      by blast
    from pl(1) b1 have "b' = b\<lparr>ships := ships b @ (Ship_init t ori start # placed)\<rparr>" by simp
    moreover from pl(2) have "list_all2 (\<lambda>s t. \<exists>ori start. s = Ship_init t ori start)
        (Ship_init t ori start # placed) (take (length (Ship_init t ori start # placed)) (t # ts))"
      by (cases start) auto
    moreover from pl(3) have "ok \<longrightarrow> length (Ship_init t ori start # placed) = length (t # ts)"
      by simp
    moreover from pl(4) inv1 have "placed_in_bounds b \<longrightarrow> placed_in_bounds b'" by blast
    ultimately show ?thesis by blast
  qed
qed

lemma placed_in_bounds_random_placement:
  assumes "random_placement b rs k = Inr (b', ok, k')"
  shows "placed_in_bounds b'"
proof -
  have "placed_in_bounds (b\<lparr>ships := []\<rparr>)" by (simp add: placed_in_bounds_def)
  with place_fleet_result [of ship_types "b\<lparr>ships := []\<rparr>" rs k b' ok k'] assms
  show ?thesis by (auto simp: random_placement_def)
qed

lemma reachable_board_in_bounds: "reachable_board b \<Longrightarrow> placed_in_bounds b"
proof (induction rule: reachable_board.induct)
  case (new_board n)
  show ?case by (rule placed_in_bounds_new)
next
  case (after_place_ship b ship)
  then show ?case by (simp add: placed_in_bounds_place_ship)
next
  case (after_receive_shot b p)
  then show ?case by (simp add: placed_in_bounds_receive_shot)
next
  case (after_random_placement b rs k b' ok k')
  then show ?case by (simp add: placed_in_bounds_random_placement)
qed

subsection \<open>Shots off the board\<close>

lemma out_of_bounds_sentinel: "out_of_bounds n (-1, -1)"
  by (simp add: out_of_bounds_def)

lemma placed_in_bounds_unoccupied:
  assumes "placed_in_bounds b" and "out_of_bounds (size_board b) p"
  shows "receive_shot_scan p (ships b) = None"
proof -
  have "p \<notin> set (get_positions s)" if "s \<in> set (ships b)" for s
  proof
    assume "p \<in> set (get_positions s)"
    with assms(2) have "list_ex (out_of_bounds (size_board b)) (get_positions s)"
      by (auto simp: list_ex_iff)
    with assms(1) that show False
      by (simp add: placed_in_bounds_def list_all_iff)
  qed
  then show ?thesis by (simp add: receive_shot_scan_None)
qed

text \<open>
  C10. \<open>receive_shot\<close> checks no bounds and returns for every pair of integers. On a
  board built by the methods of \<open>Board\<close>, a shot at a position off the board that is not
  in the shots record (the sentinel \<open>(-1, -1)\<close> is off every board) records \<open>MISS\<close> for
  that position and returns \<open>MISS\<close>, the ships untouched.
\<close>

theorem receive_shot_out_of_bounds:
  assumes "reachable_board b"
    and "Board.shots b p = None"
    and "out_of_bounds (size_board b) p \<or> p = (-1, -1)"
  shows "receive_shot b p = (b\<lparr>Board.shots := (Board.shots b)(p \<mapsto> MISS)\<rparr>, MISS)"
proof -
  from assms(3) have "out_of_bounds (size_board b) p"
    using out_of_bounds_sentinel by auto
  with assms(1) have "receive_shot_scan p (ships b) = None"
    by (simp add: placed_in_bounds_unoccupied reachable_board_in_bounds)
  with assms(2) show ?thesis by (simp add: receive_shot_def)
qed

theorem receive_shot_out_of_bounds_witness:
  "reachable_board destroyer_board
   \<and> Board.shots destroyer_board (-1, -1) = None
   \<and> Board.shots destroyer_board (0, 10) = None
   \<and> out_of_bounds (size_board destroyer_board) (0, 10)
   \<and> receive_shot destroyer_board (-1, -1) =
       (destroyer_board\<lparr>Board.shots := [(-1, -1) \<mapsto> MISS]\<rparr>, MISS)
   \<and> receive_shot destroyer_board (0, 10) =
       (destroyer_board\<lparr>Board.shots := [(0, 10) \<mapsto> MISS]\<rparr>, MISS)"
proof -
  have r: "reachable_board destroyer_board"
    unfolding destroyer_board_def by (intro reachable_board.intros)
  have h: "Board.shots destroyer_board p = None" for p
    by (simp add: destroyer_board_eq)
  have o: "out_of_bounds (size_board destroyer_board) (0, 10)"
    by (simp add: destroyer_board_eq out_of_bounds_def)
  from receive_shot_out_of_bounds [OF r h, of "(-1, -1)"]
    receive_shot_out_of_bounds [OF r h, of "(0, 10)"] r h o
  show ?thesis by (simp add: destroyer_board_eq)
qed

subsection \<open>Sunk fleets\<close>

lemma Ship_init_not_sunk: "\<not> is_sunk (Ship_init t ori start)"
  by (cases t) (simp_all add: is_sunk_def Ship_init_def fcard_fempty)

lemma random_placement_fleet:
  assumes "random_placement b rs k = Inr (b', True, k')"
  shows "\<exists>o1 p1 o2 p2 o3 p3 o4 p4 o5 p5.
           ships b' = [Ship_init CARRIER o1 p1, Ship_init BATTLESHIP o2 p2,
                       Ship_init CRUISER o3 p3, Ship_init SUBMARINE o4 p4,
                       Ship_init DESTROYER o5 p5]"
proof -
  from place_fleet_result [of ship_types "b\<lparr>ships := []\<rparr>" rs k b' True k'] assms
  obtain placed where
    pl: "b' = b\<lparr>ships := placed\<rparr>"
      "list_all2 (\<lambda>s t. \<exists>ori start. s = Ship_init t ori start) placed (take (length placed) ship_types)"
      "length placed = length ship_types"
    by (auto simp: random_placement_def)
  from pl(3) obtain s1 s2 s3 s4 s5 where "placed = [s1, s2, s3, s4, s5]"
    by (auto simp: ship_types_def length_Suc_conv)
  with pl(1,2) show ?thesis
    by (simp add: ship_types_def)
qed

text \<open>
  C8. \<open>are_all_ships_sunk\<close> is true exactly when, for every placed ship, the number of
  its hit cells equals its size. It is false on a board with at least one ship whose
  ships are all as \<open>Ship.__init__\<close> made them, and so on the board of a
  \<open>random_placement\<close> that returned True, which holds one new ship of each of the five
  types in the order of the fleet.
\<close>

theorem are_all_ships_sunk_iff:
  "are_all_ships_sunk b =
     (\<forall>ship \<in> set (ships b). int (fcard (hit_positions ship)) = size_ship ship)
   \<and> (ships b \<noteq> [] \<and> (\<forall>ship \<in> set (ships b). \<exists>t ori start. ship = Ship_init t ori start)
        \<longrightarrow> \<not> are_all_ships_sunk b)
   \<and> (random_placement b0 rs k = Inr (b, True, k')
        \<longrightarrow> (\<exists>o1 p1 o2 p2 o3 p3 o4 p4 o5 p5.
               ships b = [Ship_init CARRIER o1 p1, Ship_init BATTLESHIP o2 p2,
                          Ship_init CRUISER o3 p3, Ship_init SUBMARINE o4 p4,
                          Ship_init DESTROYER o5 p5])
           \<and> \<not> are_all_ships_sunk b)"
proof -
  have iff: "are_all_ships_sunk b =
     (\<forall>ship \<in> set (ships b). int (fcard (hit_positions ship)) = size_ship ship)"
    by (simp add: are_all_ships_sunk_def list_all_iff is_sunk_def)
  have fresh: "\<not> are_all_ships_sunk b"
    if "ships b \<noteq> []" "\<forall>ship \<in> set (ships b). \<exists>t ori start. ship = Ship_init t ori start"
  proof -
    from that(1) obtain s where s: "s \<in> set (ships b)" by (cases "ships b") auto
    with that(2) obtain t ori start where "s = Ship_init t ori start" by blast
    then have "\<not> is_sunk s" by (simp add: Ship_init_not_sunk)
    with s show ?thesis by (auto simp: are_all_ships_sunk_def list_all_iff)
  qed
  have placed: "(\<exists>o1 p1 o2 p2 o3 p3 o4 p4 o5 p5.
               ships b = [Ship_init CARRIER o1 p1, Ship_init BATTLESHIP o2 p2,
                          Ship_init CRUISER o3 p3, Ship_init SUBMARINE o4 p4,
                          Ship_init DESTROYER o5 p5])
           \<and> \<not> are_all_ships_sunk b"
    if rp: "random_placement b0 rs k = Inr (b, True, k')"
  proof -
    from random_placement_fleet [OF rp] obtain o1 p1 o2 p2 o3 p3 o4 p4 o5 p5 where
      fl: "ships b = [Ship_init CARRIER o1 p1, Ship_init BATTLESHIP o2 p2,
                      Ship_init CRUISER o3 p3, Ship_init SUBMARINE o4 p4,
                      Ship_init DESTROYER o5 p5]"
      by blast
    then have "\<not> are_all_ships_sunk b"
      by (simp add: are_all_ships_sunk_def Ship_init_not_sunk)
    with fl show ?thesis by blast
  qed
  from iff fresh placed show ?thesis by blast
qed

lemma random_placement_example:
  "case random_placement (Board_init 10) (\<lambda>k. k) 0 of
     Inl e \<Rightarrow> False
   | Inr (b, ok, k') \<Rightarrow> ok \<and> k' = 15 \<and> ships b =
       [Ship_init CARRIER HORIZONTAL (1, 2), Ship_init BATTLESHIP VERTICAL (4, 5),
        Ship_init CRUISER HORIZONTAL (7, 0), Ship_init SUBMARINE VERTICAL (2, 1),
        Ship_init DESTROYER HORIZONTAL (3, 5)]"
  by code_simp


lemma destroyer_board_sunk:
  "fst (receive_shot (fst (receive_shot destroyer_board (0, 0))) (0, 1)) =
     \<lparr>size_board = 10,
      ships = [(Ship_init DESTROYER HORIZONTAL (0, 0))\<lparr>hit_positions := {|(0, 1), (0, 0)|}\<rparr>],
      Board.shots = [(0, 0) \<mapsto> HIT, (0, 1) \<mapsto> HIT]\<rparr>"
  by (simp add: destroyer_board_eq receive_shot_def destroyer_positions register_hit_def)
     (simp add: Ship_init_def get_positions_def)

theorem are_all_ships_sunk_iff_witness:
  "are_all_ships_sunk (fst (receive_shot (fst (receive_shot destroyer_board (0, 0))) (0, 1)))
   \<and> ships destroyer_board \<noteq> []
   \<and> \<not> are_all_ships_sunk destroyer_board
   \<and> (\<exists>b k'. random_placement (Board_init 10) (\<lambda>k. k) 0 = Inr (b, True, k')
          \<and> \<not> are_all_ships_sunk b)"
proof -
  let ?sunk = "fst (receive_shot (fst (receive_shot destroyer_board (0, 0))) (0, 1))"
  from are_all_ships_sunk_iff [of ?sunk]
  have "are_all_ships_sunk ?sunk =
     (\<forall>ship \<in> set (ships ?sunk). int (fcard (hit_positions ship)) = size_ship ship)"
    by blast
  then have sunk: "are_all_ships_sunk ?sunk"
    by (simp add: destroyer_board_sunk Ship_init_def fcard_finsert_if fcard_fempty)
  have ne: "ships destroyer_board \<noteq> []"
    and made: "\<forall>ship \<in> set (ships destroyer_board). \<exists>t ori start. ship = Ship_init t ori start"
    by (auto simp: destroyer_board_eq)
  with are_all_ships_sunk_iff [of destroyer_board] have fresh: "\<not> are_all_ships_sunk destroyer_board"
    by blast
  from random_placement_example obtain b k' where
    rp: "random_placement (Board_init 10) (\<lambda>k. k) 0 = Inr (b, True, k')"
    by (auto split: sum.splits)
  with are_all_ships_sunk_iff [of b "Board_init 10" "\<lambda>k. k" 0 k']
  have "\<not> are_all_ships_sunk b" by blast
  with rp sunk ne fresh show ?thesis by blast
qed

section \<open>Properties of the strategy\<close>

lemma set_get_available_positions:
  "set (get_available_positions st) =
     {(row, col). 0 \<le> row \<and> row < Strategy.board_size st
                \<and> 0 \<le> col \<and> col < Strategy.board_size st
                \<and> (row, col) \<notin> set (Strategy.shots st)}"
  by (auto simp: get_available_positions_def)

lemma random_choice_member: "xs \<noteq> [] \<Longrightarrow> random_choice xs r \<in> set xs"
  by (simp add: random_choice_def)

lemma get_next_shot_member:
  "get_available_positions st \<noteq> [] \<Longrightarrow>
   get_next_shot st r \<in> set (get_available_positions st)"
  by (simp add: get_next_shot_def random_choice_member)

lemma get_next_shot_sentinel:
  "(get_next_shot st r = (-1, -1)) = (get_available_positions st = [])"
proof (cases "get_available_positions st = []")
  case True
  then show ?thesis by (simp add: get_next_shot_def)
next
  case False
  then have "get_next_shot st r \<in> set (get_available_positions st)"
    by (rule get_next_shot_member)
  then have "0 \<le> fst (get_next_shot st r)"
    by (auto simp: set_get_available_positions)
  then have "get_next_shot st r \<noteq> (-1, -1)" by auto
  with False show ?thesis by simp
qed

text \<open>
  C6, as the code has it. \<open>RandomStrategy.get_next_shot\<close> returns the sentinel
  \<open>(-1, -1)\<close> exactly when \<open>get_available_positions\<close> is empty. Otherwise, whatever
  number \<open>random.choice\<close> draws, the position returned is an element of
  \<open>get_available_positions\<close>: both coordinates lie in \<open>[0, board_size)\<close> and the
  position is not in the shot history. A value that is returned and is in the shot
  history can only be the sentinel, returned because nothing is available; so in a state
  whose shot history does not hold \<open>(-1, -1)\<close> the value returned is never in the shot
  history.
\<close>

theorem get_next_shot_fresh:
  "(get_next_shot st r = (-1, -1)) = (get_available_positions st = [])
   \<and> (get_available_positions st \<noteq> [] \<longrightarrow>
        get_next_shot st r \<in> set (get_available_positions st)
      \<and> 0 \<le> fst (get_next_shot st r) \<and> fst (get_next_shot st r) < Strategy.board_size st
      \<and> 0 \<le> snd (get_next_shot st r) \<and> snd (get_next_shot st r) < Strategy.board_size st
      \<and> get_next_shot st r \<notin> set (Strategy.shots st))
   \<and> (get_next_shot st r \<in> set (Strategy.shots st) \<longrightarrow>
        get_next_shot st r = (-1, -1) \<and> get_available_positions st = [])
   \<and> ((-1, -1) \<notin> set (Strategy.shots st) \<longrightarrow>
        get_next_shot st r \<notin> set (Strategy.shots st))"
proof -
  have avail: "get_next_shot st r \<in> set (get_available_positions st)
      \<and> 0 \<le> fst (get_next_shot st r) \<and> fst (get_next_shot st r) < Strategy.board_size st
      \<and> 0 \<le> snd (get_next_shot st r) \<and> snd (get_next_shot st r) < Strategy.board_size st
      \<and> get_next_shot st r \<notin> set (Strategy.shots st)"
    if "get_available_positions st \<noteq> []"
  proof -
    from that have m: "get_next_shot st r \<in> set (get_available_positions st)"
      by (rule get_next_shot_member)
    then show ?thesis
      by (auto simp: set_get_available_positions)
  qed
  then have only: "get_next_shot st r = (-1, -1) \<and> get_available_positions st = []"
    if "get_next_shot st r \<in> set (Strategy.shots st)"
    using that get_next_shot_sentinel [of st r] by blast
  then have "get_next_shot st r \<notin> set (Strategy.shots st)"
    if "(-1, -1) \<notin> set (Strategy.shots st)"
    using that by metis
  with avail only get_next_shot_sentinel [of st r] show ?thesis by blast
qed

lemma strategy_after_one_available:
  "get_available_positions strategy_after_one = [(0, 1), (1, 0), (1, 1)]"
  by code_simp

lemma strategy_exhausted_available:
  "get_available_positions strategy_exhausted = []"
  by code_simp

theorem get_next_shot_fresh_witness:
  "get_available_positions strategy_after_one \<noteq> []
   \<and> get_next_shot strategy_after_one 4 = (1, 0)
   \<and> get_next_shot strategy_after_one 4 \<notin> set (Strategy.shots strategy_after_one)
   \<and> get_available_positions strategy_exhausted = []
   \<and> get_next_shot strategy_exhausted 4 = (-1, -1)"
proof -
  have ne: "get_available_positions strategy_after_one \<noteq> []"
    by (simp add: strategy_after_one_available)
  have v: "get_next_shot strategy_after_one 4 = (1, 0)"
    by (simp add: get_next_shot_def strategy_after_one_available random_choice_def)
  from get_next_shot_fresh [of strategy_after_one 4] ne
  have "get_next_shot strategy_after_one 4 \<notin> set (Strategy.shots strategy_after_one)"
    by blast
  moreover from get_next_shot_fresh [of strategy_exhausted 4]
  have "get_next_shot strategy_exhausted 4 = (-1, -1)"
    by (simp add: strategy_exhausted_available)
  ultimately show ?thesis
    using ne v by (simp add: strategy_exhausted_available)
qed

text \<open>
  The sentinel is returned without a look at the shot history: in a state in which
  every cell has been shot and \<open>(-1, -1)\<close> has been registered, the value returned is in
  the shot history.
\<close>

theorem get_next_shot_fresh_counterexample:
  "Strategy.shots strategy_sentinel_registered = [(0, 0), (-1, -1)]
   \<and> get_available_positions strategy_sentinel_registered = []
   \<and> get_next_shot strategy_sentinel_registered 0 = (-1, -1)
   \<and> get_next_shot strategy_sentinel_registered 0
         \<in> set (Strategy.shots strategy_sentinel_registered)"
  by code_simp

section \<open>Properties of the game\<close>

lemma player_shoot_live:
  "\<not> game_over g \<Longrightarrow>
   player_shoot g p =
     (if are_all_ships_sunk (fst (receive_shot (ai_board g) p))
      then g\<lparr>ai_board := fst (receive_shot (ai_board g) p), game_over := True,
              winner := Some ''Player''\<rparr>
      else g\<lparr>ai_board := fst (receive_shot (ai_board g) p)\<rparr>,
      snd (receive_shot (ai_board g) p))"
  by (simp add: player_shoot_def Let_def split: prod.splits)

lemma player_shoot_over:
  "\<not> game_over g \<Longrightarrow>
   game_over (fst (player_shoot g p)) = are_all_ships_sunk (fst (receive_shot (ai_board g) p))"
  by (simp add: player_shoot_live)

lemma example_game_setup:
  "setup_game (Game_init 10 None) (\<lambda>k. k) 0 = Inr (example_game, 30)"
proof -
  have "case setup_game (Game_init 10 None) (\<lambda>k. k) 0 of
          Inl e \<Rightarrow> False | Inr (g, k) \<Rightarrow> k = 30"
    by code_simp
  then show ?thesis
    by (auto simp: example_game_def split: sum.splits)
qed

lemma example_game_ships:
  "\<not> game_over example_game \<and> turn_count example_game = 0
   \<and> ships (ai_board example_game) =
       [Ship_init CARRIER VERTICAL (4, 7), Ship_init BATTLESHIP HORIZONTAL (9, 6),
        Ship_init CRUISER VERTICAL (6, 3), Ship_init SUBMARINE HORIZONTAL (5, 2),
        Ship_init DESTROYER VERTICAL (1, 9)]
   \<and> ships (player_board example_game) =
       [Ship_init CARRIER HORIZONTAL (1, 2), Ship_init BATTLESHIP VERTICAL (4, 5),
        Ship_init CRUISER HORIZONTAL (7, 0), Ship_init SUBMARINE VERTICAL (2, 1),
        Ship_init DESTROYER HORIZONTAL (3, 5)]"
  by code_simp

lemma last_turn_game_live:
  "\<not> game_over last_turn_game \<and> turn_count last_turn_game = 0
    \<and> winner last_turn_game = None
    \<and> Board.shots (ai_board last_turn_game) (2, 9) = None"
  by code_simp

lemma last_turn_game_wins:
  "game_over (fst (player_shoot (last_turn_game\<lparr>turn_count := turn_count last_turn_game + 1\<rparr>) (2, 9)))"
  by code_simp


lemma ai_shoot_idle:
  "game_over g \<or> get_available_positions (ai_strategy g) = [] \<Longrightarrow>
   ai_shoot g r = (g, (-1, -1), UNKNOWN)"
  by (auto simp: ai_shoot_def Let_def get_next_shot_sentinel)

lemma ai_shoot_live:
  assumes "\<not> game_over g" and "get_available_positions (ai_strategy g) \<noteq> []"
  shows "ai_shoot g r =
     (let p = get_next_shot (ai_strategy g) r;
          pb = fst (receive_shot (player_board g) p);
          result = snd (receive_shot (player_board g) p);
          g1 = g\<lparr>player_board := pb,
                  ai_strategy := register_result (ai_strategy g) p result\<rparr>
      in (if are_all_ships_sunk pb then g1\<lparr>game_over := True, winner := Some ''AI''\<rparr> else g1,
          p, result))"
proof -
  from assms(2) have "get_next_shot (ai_strategy g) r \<noteq> (-1, -1)"
    by (simp add: get_next_shot_sentinel)
  with assms(1) show ?thesis
    by (simp add: ai_shoot_def Let_def split: prod.splits)
qed

lemma get_available_positions_empty:
  "(get_available_positions st = []) =
     (\<forall>row col. 0 \<le> row \<and> row < Strategy.board_size st
                \<and> 0 \<le> col \<and> col < Strategy.board_size st
        \<longrightarrow> (row, col) \<in> set (Strategy.shots st))"
proof -
  have "(get_available_positions st = []) = (set (get_available_positions st) = {})"
    by simp
  then show ?thesis
    unfolding set_get_available_positions by auto
qed

text \<open>
  C7. \<open>ai_shoot\<close> returns \<open>((-1, -1), UNKNOWN)\<close> and leaves the game (the player's board
  and the strategy's three histories with it) as it was when the game is over or the
  strategy has no available position, which is when its shot history holds every cell
  of \<open>[0, board_size) \<times> [0, board_size)\<close>. Otherwise the shot the strategy chose is
  applied to the player's board, the board's result for it is registered with the
  strategy and returned with the position, and the game becomes terminal with winner
  \<open>AI\<close> exactly when all ships of the player's board are then sunk; when they are not,
  terminal flag and winner stay as they were. The AI's board and the turn count are
  untouched.
\<close>

theorem ai_shoot_cases:
  "(game_over g \<or> get_available_positions (ai_strategy g) = [] \<longrightarrow>
      ai_shoot g r = (g, (-1, -1), UNKNOWN))
   \<and> (get_available_positions (ai_strategy g) = []) =
       (\<forall>row col. 0 \<le> row \<and> row < Strategy.board_size (ai_strategy g)
                  \<and> 0 \<le> col \<and> col < Strategy.board_size (ai_strategy g)
          \<longrightarrow> (row, col) \<in> set (Strategy.shots (ai_strategy g)))
   \<and> (\<not> game_over g \<and> get_available_positions (ai_strategy g) \<noteq> [] \<longrightarrow>
        snd (ai_shoot g r) =
          (get_next_shot (ai_strategy g) r,
           snd (receive_shot (player_board g) (get_next_shot (ai_strategy g) r)))
      \<and> player_board (fst (ai_shoot g r)) =
          fst (receive_shot (player_board g) (get_next_shot (ai_strategy g) r))
      \<and> ai_strategy (fst (ai_shoot g r)) =
          register_result (ai_strategy g) (get_next_shot (ai_strategy g) r)
            (snd (receive_shot (player_board g) (get_next_shot (ai_strategy g) r)))
      \<and> game_over (fst (ai_shoot g r)) = are_all_ships_sunk (player_board (fst (ai_shoot g r)))
      \<and> winner (fst (ai_shoot g r)) =
          (if are_all_ships_sunk (player_board (fst (ai_shoot g r))) then Some ''AI''
           else winner g)
      \<and> ai_board (fst (ai_shoot g r)) = ai_board g
      \<and> turn_count (fst (ai_shoot g r)) = turn_count g)"
proof -
  have idle: "game_over g \<or> get_available_positions (ai_strategy g) = [] \<longrightarrow>
      ai_shoot g r = (g, (-1, -1), UNKNOWN)"
    by (simp add: ai_shoot_idle)
  have live: "snd (ai_shoot g r) =
          (get_next_shot (ai_strategy g) r,
           snd (receive_shot (player_board g) (get_next_shot (ai_strategy g) r)))
      \<and> player_board (fst (ai_shoot g r)) =
          fst (receive_shot (player_board g) (get_next_shot (ai_strategy g) r))
      \<and> ai_strategy (fst (ai_shoot g r)) =
          register_result (ai_strategy g) (get_next_shot (ai_strategy g) r)
            (snd (receive_shot (player_board g) (get_next_shot (ai_strategy g) r)))
      \<and> game_over (fst (ai_shoot g r)) = are_all_ships_sunk (player_board (fst (ai_shoot g r)))
      \<and> winner (fst (ai_shoot g r)) =
          (if are_all_ships_sunk (player_board (fst (ai_shoot g r))) then Some ''AI''
           else winner g)
      \<and> ai_board (fst (ai_shoot g r)) = ai_board g
      \<and> turn_count (fst (ai_shoot g r)) = turn_count g"
    if "\<not> game_over g" "get_available_positions (ai_strategy g) \<noteq> []"
    using that by (simp add: ai_shoot_live Let_def)
  from idle live get_available_positions_empty [of "ai_strategy g"] show ?thesis
    by blast
qed

lemma example_game_strategy:
  "get_next_shot (ai_strategy example_game) 0 = (0, 0)
   \<and> get_available_positions (ai_strategy example_game) \<noteq> []
   \<and> Strategy.shots (ai_strategy example_game) = []
   \<and> misses (ai_strategy example_game) = []"
  by code_simp

lemma example_game_player_board:
  "snd (receive_shot (player_board example_game) (0, 0)) = MISS
   \<and> \<not> are_all_ships_sunk (fst (receive_shot (player_board example_game) (0, 0)))"
  by code_simp

lemma exhausted_game_strategy:
  "\<not> game_over exhausted_game \<and> get_available_positions (ai_strategy exhausted_game) = []"
  by code_simp

theorem ai_shoot_cases_witness:
  "\<not> game_over example_game
   \<and> get_available_positions (ai_strategy example_game) \<noteq> []
   \<and> snd (ai_shoot example_game 0) = ((0, 0), MISS)
   \<and> Strategy.shots (ai_strategy (fst (ai_shoot example_game 0))) = [(0, 0)]
   \<and> misses (ai_strategy (fst (ai_shoot example_game 0))) = [(0, 0)]
   \<and> \<not> game_over (fst (ai_shoot example_game 0))
   \<and> \<not> game_over exhausted_game
   \<and> get_available_positions (ai_strategy exhausted_game) = []
   \<and> ai_shoot exhausted_game 0 = (exhausted_game, (-1, -1), UNKNOWN)"
proof -
  have live: "\<not> game_over example_game"
    and avail: "get_available_positions (ai_strategy example_game) \<noteq> []"
    by (simp_all add: example_game_ships example_game_strategy)
  from ai_shoot_cases [of example_game 0] live avail
  have "snd (ai_shoot example_game 0) = ((0, 0), MISS)
      \<and> ai_strategy (fst (ai_shoot example_game 0)) =
          register_result (ai_strategy example_game) (0, 0) MISS
      \<and> \<not> game_over (fst (ai_shoot example_game 0))"
    by (simp add: example_game_strategy example_game_player_board)
  then have shot: "snd (ai_shoot example_game 0) = ((0, 0), MISS)
      \<and> Strategy.shots (ai_strategy (fst (ai_shoot example_game 0))) = [(0, 0)]
      \<and> misses (ai_strategy (fst (ai_shoot example_game 0))) = [(0, 0)]
      \<and> \<not> game_over (fst (ai_shoot example_game 0))"
    by (simp add: register_result_def example_game_strategy)
  from ai_shoot_cases [of exhausted_game 0]
  have "ai_shoot exhausted_game 0 = (exhausted_game, (-1, -1), UNKNOWN)"
    by (simp add: exhausted_game_strategy)
  with shot live avail show ?thesis
    by (simp add: exhausted_game_strategy)
qed


subsection \<open>play_turn\<close>

lemma ai_shoot_turn_count: "turn_count (fst (ai_shoot g r)) = turn_count g"
  by (simp add: ai_shoot_def Let_def split: prod.splits)

lemma play_turn_over:
  "game_over g \<Longrightarrow>
   play_turn g p r = (g, [''game_over'' \<mapsto> PyBool True, ''winner'' \<mapsto> winner_value (winner g)])"
  by (simp add: play_turn_def)

lemma play_turn_player_wins:
  assumes "\<not> game_over g"
    and "are_all_ships_sunk (fst (receive_shot (ai_board g) p))"
  shows "play_turn g p r =
     (g\<lparr>turn_count := turn_count g + 1, ai_board := fst (receive_shot (ai_board g) p),
        game_over := True, winner := Some ''Player''\<rparr>,
      [''player_shot'' \<mapsto> PyTuple p,
       ''player_result'' \<mapsto> PyCellState (snd (receive_shot (ai_board g) p)),
       ''game_over'' \<mapsto> PyBool True,
       ''winner'' \<mapsto> PyStr ''Player''])"
  using assms by (simp add: play_turn_def player_shoot_live winner_value_def)

lemma play_turn_goes_on:
  assumes "\<not> game_over g"
    and "\<not> are_all_ships_sunk (fst (receive_shot (ai_board g) p))"
  shows "play_turn g p r =
     (fst (ai_shoot (g\<lparr>turn_count := turn_count g + 1,
                       ai_board := fst (receive_shot (ai_board g) p)\<rparr>) r),
      [''player_shot'' \<mapsto> PyTuple p,
       ''player_result'' \<mapsto> PyCellState (snd (receive_shot (ai_board g) p)),
       ''ai_shot'' \<mapsto> PyTuple (fst (snd (ai_shoot (g\<lparr>turn_count := turn_count g + 1,
                       ai_board := fst (receive_shot (ai_board g) p)\<rparr>) r))),
       ''ai_result'' \<mapsto> PyCellState (snd (snd (ai_shoot (g\<lparr>turn_count := turn_count g + 1,
                       ai_board := fst (receive_shot (ai_board g) p)\<rparr>) r))),
       ''game_over'' \<mapsto> PyBool (game_over (fst (ai_shoot (g\<lparr>turn_count := turn_count g + 1,
                       ai_board := fst (receive_shot (ai_board g) p)\<rparr>) r))),
       ''winner'' \<mapsto> winner_value (winner (fst (ai_shoot (g\<lparr>turn_count := turn_count g + 1,
                       ai_board := fst (receive_shot (ai_board g) p)\<rparr>) r))),
       ''turn_count'' \<mapsto> PyInt (turn_count g + 1)])"
proof -
  let ?g1 = "g\<lparr>turn_count := turn_count g + 1,
               ai_board := fst (receive_shot (ai_board g) p)\<rparr>"
  obtain g2 ai_position ai_result where
    shot: "ai_shoot ?g1 r = (g2, ai_position, ai_result)"
    by (cases "ai_shoot ?g1 r") auto
  with ai_shoot_turn_count [of ?g1 r] have "turn_count g2 = turn_count g + 1"
    by simp
  with assms shot show ?thesis
    by (simp add: play_turn_def player_shoot_live)
qed

text \<open>
  C4. When \<open>play_turn\<close> is called on a game that is over, it returns the summary
  \<open>{game_over: True, winner: winner}\<close> and the game is as it was: no shot, both boards
  and the turn count unchanged. When the game is not over and the player's shot ends it,
  \<open>play_turn\<close> is the player's shot alone: the game returned is the game after
  \<open>player_shoot\<close>, whatever \<open>random.choice\<close> would have drawn, the player's board and the
  strategy are untouched, the summary has no AI shot and its winner is \<open>Player\<close>.
\<close>

theorem play_turn_terminal:
  "(game_over g \<longrightarrow>
      play_turn g p r =
        (g, [''game_over'' \<mapsto> PyBool True, ''winner'' \<mapsto> winner_value (winner g)]))
   \<and> (\<not> game_over g
        \<and> game_over (fst (player_shoot (g\<lparr>turn_count := turn_count g + 1\<rparr>) p)) \<longrightarrow>
        fst (play_turn g p r) = fst (player_shoot (g\<lparr>turn_count := turn_count g + 1\<rparr>) p)
      \<and> player_board (fst (play_turn g p r)) = player_board g
      \<and> ai_strategy (fst (play_turn g p r)) = ai_strategy g
      \<and> winner (fst (play_turn g p r)) = Some ''Player''
      \<and> snd (play_turn g p r) =
          [''player_shot'' \<mapsto> PyTuple p,
           ''player_result'' \<mapsto> PyCellState (snd (receive_shot (ai_board g) p)),
           ''game_over'' \<mapsto> PyBool True,
           ''winner'' \<mapsto> PyStr ''Player'']
      \<and> snd (play_turn g p r) ''ai_shot'' = None
      \<and> snd (play_turn g p r) ''ai_result'' = None)"
proof -
  have won: "fst (play_turn g p r) = fst (player_shoot (g\<lparr>turn_count := turn_count g + 1\<rparr>) p)
      \<and> player_board (fst (play_turn g p r)) = player_board g
      \<and> ai_strategy (fst (play_turn g p r)) = ai_strategy g
      \<and> winner (fst (play_turn g p r)) = Some ''Player''
      \<and> snd (play_turn g p r) =
          [''player_shot'' \<mapsto> PyTuple p,
           ''player_result'' \<mapsto> PyCellState (snd (receive_shot (ai_board g) p)),
           ''game_over'' \<mapsto> PyBool True,
           ''winner'' \<mapsto> PyStr ''Player'']
      \<and> snd (play_turn g p r) ''ai_shot'' = None
      \<and> snd (play_turn g p r) ''ai_result'' = None"
    if live: "\<not> game_over g"
      and over: "game_over (fst (player_shoot (g\<lparr>turn_count := turn_count g + 1\<rparr>) p))"
  proof -
    from live over have sunk: "are_all_ships_sunk (fst (receive_shot (ai_board g) p))"
      by (simp add: player_shoot_over)
    from live sunk show ?thesis
      by (simp add: play_turn_player_wins player_shoot_live)
  qed
  with play_turn_over [of g p r] show ?thesis by blast
qed

lemma last_turn_game_over:
  "game_over (fst (play_turn last_turn_game (2, 9) 0))"
  by code_simp

theorem play_turn_terminal_witness:
  "\<not> game_over last_turn_game
   \<and> game_over (fst (player_shoot (last_turn_game\<lparr>turn_count := turn_count last_turn_game + 1\<rparr>) (2, 9)))
   \<and> winner (fst (play_turn last_turn_game (2, 9) 0)) = Some ''Player''
   \<and> player_board (fst (play_turn last_turn_game (2, 9) 0)) = player_board last_turn_game
   \<and> snd (play_turn last_turn_game (2, 9) 0) ''ai_shot'' = None
   \<and> game_over (fst (play_turn last_turn_game (2, 9) 0))
   \<and> play_turn (fst (play_turn last_turn_game (2, 9) 0)) (0, 0) 0 =
       (fst (play_turn last_turn_game (2, 9) 0),
        [''game_over'' \<mapsto> PyBool True, ''winner'' \<mapsto> PyStr ''Player''])"
proof -
  let ?won = "fst (play_turn last_turn_game (2, 9) 0)"
  have live: "\<not> game_over last_turn_game"
    by (simp add: last_turn_game_live)
  from play_turn_terminal [of last_turn_game "(2, 9)" 0] live last_turn_game_wins
  have first: "winner ?won = Some ''Player''
      \<and> player_board ?won = player_board last_turn_game
      \<and> snd (play_turn last_turn_game (2, 9) 0) ''ai_shot'' = None"
    by blast
  from play_turn_terminal [of ?won "(0, 0)" 0] last_turn_game_over
  have "play_turn ?won (0, 0) 0 =
      (?won, [''game_over'' \<mapsto> PyBool True, ''winner'' \<mapsto> winner_value (winner ?won)])"
    by blast
  with first have "play_turn ?won (0, 0) 0 =
      (?won, [''game_over'' \<mapsto> PyBool True, ''winner'' \<mapsto> PyStr ''Player''])"
    by (simp add: winner_value_def)
  with first live last_turn_game_wins last_turn_game_over show ?thesis by blast
qed

text \<open>
  C9. A board with no ship has all its ships sunk. So in a game whose AI board has no
  ship and that is not over, and in particular in a new game for which \<open>setup_game\<close> was
  not called, the first \<open>player_shoot\<close> or \<open>play_turn\<close> ends the game with winner
  \<open>Player\<close>, at any position.
\<close>

theorem empty_board_player_wins:
  "(ships b = [] \<longrightarrow> are_all_ships_sunk b)
   \<and> (\<not> game_over g \<and> ships (ai_board g) = [] \<longrightarrow>
        game_over (fst (player_shoot g p)) \<and> winner (fst (player_shoot g p)) = Some ''Player''
      \<and> game_over (fst (play_turn g p r)) \<and> winner (fst (play_turn g p r)) = Some ''Player'')
   \<and> game_over (fst (player_shoot (Game_init n strategy) p))
   \<and> winner (fst (player_shoot (Game_init n strategy) p)) = Some ''Player''
   \<and> game_over (fst (play_turn (Game_init n strategy) p r))
   \<and> winner (fst (play_turn (Game_init n strategy) p r)) = Some ''Player''"
proof -
  have empty: "are_all_ships_sunk b'" if "ships b' = []" for b'
    using that by (simp add: are_all_ships_sunk_def)
  have gen: "game_over (fst (player_shoot g' p)) \<and> winner (fst (player_shoot g' p)) = Some ''Player''
      \<and> game_over (fst (play_turn g' p r)) \<and> winner (fst (play_turn g' p r)) = Some ''Player''"
    if live: "\<not> game_over g'" and none: "ships (ai_board g') = []" for g'
  proof -
    from none have "ships (fst (receive_shot (ai_board g') p)) = []"
      by (simp add: receive_shot_def split: option.splits)
    then have sunk: "are_all_ships_sunk (fst (receive_shot (ai_board g') p))"
      by (rule empty)
    with live show ?thesis
      by (simp add: player_shoot_live play_turn_player_wins)
  qed
  have "\<not> game_over (Game_init n strategy)" and "ships (ai_board (Game_init n strategy)) = []"
    by (simp_all add: Game_init_def Board_init_def)
  then have "game_over (fst (player_shoot (Game_init n strategy) p))
      \<and> winner (fst (player_shoot (Game_init n strategy) p)) = Some ''Player''
      \<and> game_over (fst (play_turn (Game_init n strategy) p r))
      \<and> winner (fst (play_turn (Game_init n strategy) p r)) = Some ''Player''"
    by (rule gen)
  with empty [of b] gen [of g] show ?thesis by blast
qed

theorem empty_board_player_wins_witness:
  "ships (ai_board (Game_init 10 None)) = []
   \<and> \<not> game_over (Game_init 10 None)
   \<and> are_all_ships_sunk (ai_board (Game_init 10 None))
   \<and> game_over (fst (player_shoot (Game_init 10 None) (3, 4)))
   \<and> winner (fst (play_turn (Game_init 10 None) (3, 4) 0)) = Some ''Player''"
proof -
  have none: "ships (ai_board (Game_init 10 None)) = []"
    and live: "\<not> game_over (Game_init 10 None)"
    by (simp_all add: Game_init_def Board_init_def)
  from empty_board_player_wins [of "ai_board (Game_init 10 None)" "Game_init 10 None" "(3, 4)" 0]
    none live
  have "are_all_ships_sunk (ai_board (Game_init 10 None))
      \<and> game_over (fst (player_shoot (Game_init 10 None) (3, 4)))
      \<and> winner (fst (play_turn (Game_init 10 None) (3, 4) 0)) = Some ''Player''"
    by blast
  with none live show ?thesis by blast
qed

text \<open>
  C3, as the code has it. A \<open>play_turn\<close> on a game that is not over adds exactly one to
  the turn count, whether one shot or two were taken. The summary it returns always
  holds the player's shot position, the player's result, and the terminal flag and the
  winner of the game as the call leaves it. When the player's shot has not sunk the last
  ship of the AI's board the summary holds also the AI's shot position and result, as
  \<open>ai_shoot\<close> returned them, and the new turn count, seven keys in all; when the
  player's shot ended the game the summary has the four keys \<open>player_shot\<close>,
  \<open>player_result\<close>, \<open>game_over\<close> and \<open>winner\<close> and no others.
\<close>

theorem play_turn_summary:
  assumes "\<not> game_over g"
  shows "turn_count (fst (play_turn g p r)) = turn_count g + 1
   \<and> snd (play_turn g p r) ''player_shot'' = Some (PyTuple p)
   \<and> snd (play_turn g p r) ''player_result'' =
       Some (PyCellState (snd (receive_shot (ai_board g) p)))
   \<and> snd (play_turn g p r) ''game_over'' = Some (PyBool (game_over (fst (play_turn g p r))))
   \<and> snd (play_turn g p r) ''winner'' = Some (winner_value (winner (fst (play_turn g p r))))
   \<and> (if are_all_ships_sunk (fst (receive_shot (ai_board g) p))
       then dom (snd (play_turn g p r)) =
              {''player_shot'', ''player_result'', ''game_over'', ''winner''}
       else dom (snd (play_turn g p r)) =
              {''player_shot'', ''player_result'', ''ai_shot'', ''ai_result'', ''game_over'',
               ''winner'', ''turn_count''}
          \<and> snd (play_turn g p r) ''ai_shot'' =
              Some (PyTuple (fst (snd (ai_shoot (g\<lparr>turn_count := turn_count g + 1,
                       ai_board := fst (receive_shot (ai_board g) p)\<rparr>) r))))
          \<and> snd (play_turn g p r) ''ai_result'' =
              Some (PyCellState (snd (snd (ai_shoot (g\<lparr>turn_count := turn_count g + 1,
                       ai_board := fst (receive_shot (ai_board g) p)\<rparr>) r))))
          \<and> snd (play_turn g p r) ''turn_count'' = Some (PyInt (turn_count g + 1)))"
proof (cases "are_all_ships_sunk (fst (receive_shot (ai_board g) p))")
  case True
  have "dom [''player_shot'' \<mapsto> PyTuple p,
       ''player_result'' \<mapsto> PyCellState (snd (receive_shot (ai_board g) p)),
       ''game_over'' \<mapsto> PyBool True,
       ''winner'' \<mapsto> PyStr ''Player''] =
       {''player_shot'', ''player_result'', ''game_over'', ''winner''}"
    by auto
  with True assms show ?thesis
    by (simp add: play_turn_player_wins winner_value_def)
next
  case False
  let ?g1 = "g\<lparr>turn_count := turn_count g + 1,
               ai_board := fst (receive_shot (ai_board g) p)\<rparr>"
  have "dom [''player_shot'' \<mapsto> PyTuple p,
       ''player_result'' \<mapsto> PyCellState (snd (receive_shot (ai_board g) p)),
       ''ai_shot'' \<mapsto> PyTuple (fst (snd (ai_shoot ?g1 r))),
       ''ai_result'' \<mapsto> PyCellState (snd (snd (ai_shoot ?g1 r))),
       ''game_over'' \<mapsto> PyBool (game_over (fst (ai_shoot ?g1 r))),
       ''winner'' \<mapsto> winner_value (winner (fst (ai_shoot ?g1 r))),
       ''turn_count'' \<mapsto> PyInt (turn_count g + 1)] =
       {''player_shot'', ''player_result'', ''ai_shot'', ''ai_result'', ''game_over'',
        ''winner'', ''turn_count''}"
    by auto
  with False assms show ?thesis
    by (simp add: play_turn_goes_on ai_shoot_turn_count)
qed

lemma example_game_first_shot:
  "\<not> are_all_ships_sunk (fst (receive_shot (ai_board example_game) (4, 7)))
   \<and> snd (receive_shot (ai_board example_game) (4, 7)) = HIT"
  by code_simp

lemma last_turn_game_last_shot:
  "are_all_ships_sunk (fst (receive_shot (ai_board last_turn_game) (2, 9)))"
  by code_simp

theorem play_turn_summary_witness:
  "\<not> game_over example_game
   \<and> turn_count (fst (play_turn example_game (4, 7) 0)) = 1
   \<and> snd (play_turn example_game (4, 7) 0) ''player_result'' = Some (PyCellState HIT)
   \<and> snd (play_turn example_game (4, 7) 0) ''turn_count'' = Some (PyInt 1)
   \<and> dom (snd (play_turn example_game (4, 7) 0)) =
       {''player_shot'', ''player_result'', ''ai_shot'', ''ai_result'', ''game_over'',
        ''winner'', ''turn_count''}
   \<and> \<not> game_over last_turn_game
   \<and> turn_count (fst (play_turn last_turn_game (2, 9) 0)) = 1
   \<and> dom (snd (play_turn last_turn_game (2, 9) 0)) =
       {''player_shot'', ''player_result'', ''game_over'', ''winner''}"
proof -
  have live: "\<not> game_over example_game" and live': "\<not> game_over last_turn_game"
    by (simp_all add: example_game_ships last_turn_game_live)
  from play_turn_summary [OF live, of "(4, 7)" 0]
  have "turn_count (fst (play_turn example_game (4, 7) 0)) = 1
      \<and> snd (play_turn example_game (4, 7) 0) ''player_result'' = Some (PyCellState HIT)
      \<and> snd (play_turn example_game (4, 7) 0) ''turn_count'' = Some (PyInt 1)
      \<and> dom (snd (play_turn example_game (4, 7) 0)) =
          {''player_shot'', ''player_result'', ''ai_shot'', ''ai_result'', ''game_over'',
           ''winner'', ''turn_count''}"
    by (simp add: example_game_first_shot example_game_ships)
  moreover from play_turn_summary [OF live', of "(2, 9)" 0]
  have "turn_count (fst (play_turn last_turn_game (2, 9) 0)) = 1
      \<and> dom (snd (play_turn last_turn_game (2, 9) 0)) =
          {''player_shot'', ''player_result'', ''game_over'', ''winner''}"
    by (simp add: last_turn_game_last_shot last_turn_game_live)
  ultimately show ?thesis using live live' by simp
qed

text \<open>
  The summary of a call in which the player's shot ends the game holds neither the AI's
  shot and result nor the turn count: \<open>last_turn_game\<close> is not over, and the player's
  shot at \<open>(2, 9)\<close> sinks the last ship.
\<close>

theorem play_turn_summary_counterexample:
  "\<not> game_over last_turn_game
   \<and> snd (play_turn last_turn_game (2, 9) 0) ''ai_shot'' = None
   \<and> snd (play_turn last_turn_game (2, 9) 0) ''ai_result'' = None
   \<and> snd (play_turn last_turn_game (2, 9) 0) ''turn_count'' = None"
  by code_simp

end
